theory Spec2Isabelle
  imports Main "HOL-Library.Sublist" "HOL-Library.Signed_Division"
begin

section \<open>Pages, stages and units of work\<close>

text \<open>
  Two implementations of the class ConsoleBatch are verified side by side: the baseline
  (ConsoleBatch_ubuntu_arm64.cpp) and the optimized one
  (ConsoleBatch_ubuntu_arm64_optimized.cpp). Definitions of the baseline keep the
  source's names; those of the optimized file carry the suffix \<open>_opt\<close>.
\<close>

text \<open>
  Modelled from the spec: the identity types PageId, ImageId and PageInfo are declared in
  headers that are not among the sources. An ImageId is a file path and an index within a
  multi-image file; a PageId is an ImageId and a sub-page selector; of a PageInfo the code
  reads only \<open>id()\<close> and \<open>imageId()\<close>.
\<close>

datatype sub_page = SINGLE_PAGE | LEFT_PAGE | RIGHT_PAGE

datatype image_id = ImageId (filePath: string) (multiPageIndex: nat)

datatype page_id = PageId (imageId: image_id) (subPage: sub_page)

datatype page_info = PageInfo (page_info_id: page_id)

text \<open>The six stages, in pipeline order.\<close>

datatype stage = FIX_ORIENTATION | PAGE_SPLIT | DESKEW | SELECT_CONTENT | PAGE_LAYOUT | OUTPUT

text \<open>
  The first argument of a stage's \<open>createTask\<close> is \<open>page.id()\<close> everywhere except in
  the baseline's page-split call, which passes the PageInfo itself.
\<close>

datatype page_arg = ById page_id | ByInfo page_info

text \<open>
  A unit of work records the arguments its factory was called with: the stage, the page
  argument, the continuation (\<open>None\<close> is the null pointer), the batch flag and the debug
  flag (\<open>None\<close> where the call has no debug parameter, as the baseline's fix-orientation
  call). The thumbnail cache, the file name generator and the acceleration operations are
  opaque collaborators and are left out.
\<close>

datatype task = Task (task_stage: stage) (task_page: page_arg) (task_next: "task option")
  (task_batch: bool) (task_debug: "bool option")

datatype load_file_task = LoadFileTask (lft_page: page_info) (lft_next: "task option")

text \<open>
  The stage factories (\<open>Filter::createTask\<close> of each stage) are not among the sources, so
  the builders take the factory as a parameter; it may return the null pointer.
\<close>

type_synonym factory = "stage \<Rightarrow> page_arg \<Rightarrow> task option \<Rightarrow> bool \<Rightarrow> bool option \<Rightarrow> task option"

text \<open>
  Modelled from the spec: \<open>createTask(pageId, nextContinuation, batchFlag, debugFlag)\<close> of
  section 4.1 produces a unit of work, which optionally wraps a continuation (glossary);
  the factory that always allocates one.
\<close>

definition Filter_createTask :: factory where
  "Filter_createTask s p nxt b d = Some (Task s p nxt b d)"

text \<open>
  Ways a call ends other than by returning: a failed \<open>assert\<close> (assertions are taken as
  compiled in; it terminates the process and no handler sees it), a
  \<open>std::runtime_error\<close> thrown by ConsoleBatch itself, an exception thrown by a unit of
  work, a division by zero and a null pointer dereference.
\<close>

datatype failure = AssertionFailed | RuntimeError string | Exception string
  | DivisionByZero | NullDereference

text \<open>
  Modelled from the spec: StageSequence is not among the sources. The baseline compares
  against its index accessors; the stage order is fixed (orientation, split, deskew,
  content selection, layout, output), which \<open>StageSequence_fixed\<close> writes out with the
  literals of the optimized file.
\<close>

record stage_sequence =
  fixOrientationFilterIdx :: int
  pageSplitFilterIdx :: int
  deskewFilterIdx :: int
  selectContentFilterIdx :: int
  pageLayoutFilterIdx :: int
  outputFilterIdx :: int

definition StageSequence_fixed :: stage_sequence where
  "StageSequence_fixed = \<lparr> fixOrientationFilterIdx = 0, pageSplitFilterIdx = 1,
     deskewFilterIdx = 2, selectContentFilterIdx = 3, pageLayoutFilterIdx = 4,
     outputFilterIdx = 5 \<rparr>"

text \<open>The last filter of the sequence is the output stage.\<close>

definition lastFilterIdx :: "stage_sequence \<Rightarrow> int" where
  "lastFilterIdx st = outputFilterIdx st"

section \<open>The baseline builder\<close>

text \<open>
  The baseline object: the members \<open>batch\<close> and \<open>debug\<close> (both constructors set them to
  true, nothing else writes \<open>batch\<close>), the stage sequence and the page catalog
  (\<open>None\<close> is a null \<open>m_ptrPages\<close>).
\<close>

record console_batch =
  batch :: bool
  debug :: bool
  m_ptrStages :: stage_sequence
  m_ptrPages :: "page_info list option"

text \<open>
  \<open>ConsoleBatch::createCompositeTask(page, last_filter_idx)\<close> of the baseline. The
  member \<open>debug\<close> is cleared on entry in batch mode and after every factory call, so the
  function returns the updated object beside its result. The final
  \<open>assert(fix_orientation_task)\<close> stands outside every guard.
\<close>

definition createCompositeTask ::
  "factory \<Rightarrow> console_batch \<Rightarrow> page_info \<Rightarrow> int \<Rightarrow> (failure + load_file_task) \<times> console_batch"
where
  "createCompositeTask mk cb page last_filter_idx =
    (let st = m_ptrStages cb;
         pid = ById (page_info_id page);
         debug0 = (if batch cb then False else debug cb);
         (output_task, debug1) =
           (if last_filter_idx \<ge> outputFilterIdx st
            then (mk OUTPUT pid None (batch cb) (Some debug0), False)
            else (None, debug0));
         (page_layout_task, debug2) =
           (if last_filter_idx \<ge> pageLayoutFilterIdx st
            then (mk PAGE_LAYOUT pid output_task (batch cb) (Some debug1), False)
            else (None, debug1));
         (select_content_task, debug3) =
           (if last_filter_idx \<ge> selectContentFilterIdx st
            then (mk SELECT_CONTENT pid page_layout_task (batch cb) (Some debug2), False)
            else (None, debug2));
         (deskew_task, debug4) =
           (if last_filter_idx \<ge> deskewFilterIdx st
            then (mk DESKEW pid select_content_task (batch cb) (Some debug3), False)
            else (None, debug3));
         (page_split_task, debug5) =
           (if last_filter_idx \<ge> pageSplitFilterIdx st
            then (mk PAGE_SPLIT (ByInfo page) deskew_task (batch cb) (Some debug4), False)
            else (None, debug4));
         (fix_orientation_task, debug6) =
           (if last_filter_idx \<ge> fixOrientationFilterIdx st
            then (mk FIX_ORIENTATION pid page_split_task (batch cb) None, False)
            else (None, debug5))
     in (case fix_orientation_task of
           None \<Rightarrow> Inl AssertionFailed
         | Some t \<Rightarrow> Inr (LoadFileTask page fix_orientation_task),
         cb\<lparr>debug := debug6\<rparr>))"

section \<open>The optimized builder\<close>

text \<open>
  Inside each guard of the optimized builder the fresh task is asserted to be non-null;
  outside a guard nothing is asserted.
\<close>

definition guarded_create :: "bool \<Rightarrow> task option \<Rightarrow> failure + task option" where
  "guarded_create g created =
     (if g then (case created of None \<Rightarrow> Inl AssertionFailed | Some t \<Rightarrow> Inr (Some t))
      else Inr None)"

text \<open>
  \<open>ConsoleBatch::createCompositeTask(page, last_filter_idx, batch, debug)\<close> of the
  optimized file: \<open>batch\<close> and \<open>debug\<close> are constant parameters, handed unchanged to every
  stage, and the guards compare against the literals 5 down to 0. The acceleration block
  that follows the guards only configures a local object and catches what it throws; it
  does not reach the returned task.
\<close>

definition createCompositeTask_opt ::
  "factory \<Rightarrow> page_info \<Rightarrow> int \<Rightarrow> bool \<Rightarrow> bool \<Rightarrow> failure + load_file_task"
where
  "createCompositeTask_opt mk page last_filter_idx batch_flag debug_flag =
    (let pid = ById (page_info_id page) in
     case guarded_create (last_filter_idx \<ge> 5)
            (mk OUTPUT pid None batch_flag (Some debug_flag)) of
       Inl e \<Rightarrow> Inl e
     | Inr output_task \<Rightarrow>
     (case guarded_create (last_filter_idx \<ge> 4)
            (mk PAGE_LAYOUT pid output_task batch_flag (Some debug_flag)) of
       Inl e \<Rightarrow> Inl e
     | Inr page_layout_task \<Rightarrow>
     (case guarded_create (last_filter_idx \<ge> 3)
            (mk SELECT_CONTENT pid page_layout_task batch_flag (Some debug_flag)) of
       Inl e \<Rightarrow> Inl e
     | Inr select_content_task \<Rightarrow>
     (case guarded_create (last_filter_idx \<ge> 2)
            (mk DESKEW pid select_content_task batch_flag (Some debug_flag)) of
       Inl e \<Rightarrow> Inl e
     | Inr deskew_task \<Rightarrow>
     (case guarded_create (last_filter_idx \<ge> 1)
            (mk PAGE_SPLIT pid deskew_task batch_flag (Some debug_flag)) of
       Inl e \<Rightarrow> Inl e
     | Inr page_split_task \<Rightarrow>
     (case guarded_create (last_filter_idx \<ge> 0)
            (mk FIX_ORIENTATION pid page_split_task batch_flag (Some debug_flag)) of
       Inl e \<Rightarrow> Inl e
     | Inr fix_orientation_task \<Rightarrow>
         Inr (LoadFileTask page fix_orientation_task)))))))"

section \<open>Chains and their execution\<close>

definition all_stages :: "stage list" where
  "all_stages = [FIX_ORIENTATION, PAGE_SPLIT, DESKEW, SELECT_CONTENT, PAGE_LAYOUT, OUTPUT]"

definition stages_upto :: "int \<Rightarrow> stage list" where
  "stages_upto k = take (nat (k + 1)) all_stages"

text \<open>The units of work reached from a task by following continuations.\<close>

fun chain :: "task \<Rightarrow> task list" where
  "chain (Task s p nxt b d) =
     Task s p nxt b d # (case nxt of None \<Rightarrow> [] | Some t \<Rightarrow> chain t)"

definition chain_of :: "failure + load_file_task \<Rightarrow> task list" where
  "chain_of r = (case r of Inl e \<Rightarrow> []
     | Inr lt \<Rightarrow> (case lft_next lt of None \<Rightarrow> [] | Some t \<Rightarrow> chain t))"

text \<open>
  The builder in the words of the spec (section 4.2): starting from the last stage index
  and walking down to stage 0, call \<open>stage[i].createTask(page, previouslyBuiltTask, ...)\<close>,
  where \<open>previouslyBuiltTask\<close> is null on the first (highest-index) iteration and becomes
  each iteration's result going forward.
\<close>

primrec walk_down :: "(nat \<Rightarrow> task option \<Rightarrow> task option) \<Rightarrow> nat \<Rightarrow> task option \<Rightarrow> task option" where
  "walk_down create 0 previouslyBuiltTask = create 0 previouslyBuiltTask"
| "walk_down create (Suc i) previouslyBuiltTask =
     walk_down create i (create (Suc i) previouslyBuiltTask)"

definition build_spec :: "(nat \<Rightarrow> task option \<Rightarrow> task option) \<Rightarrow> nat \<Rightarrow> task option" where
  "build_spec create lastStageIndex = walk_down create lastStageIndex None"

text \<open>The factory calls of the two builders for stage index \<open>i\<close>, as the source writes them.\<close>

definition create_opt :: "page_info \<Rightarrow> bool \<Rightarrow> bool \<Rightarrow> nat \<Rightarrow> task option \<Rightarrow> task option" where
  "create_opt page batch_flag debug_flag i prev =
     Filter_createTask (all_stages ! i) (ById (page_info_id page)) prev batch_flag (Some debug_flag)"

definition create_base :: "console_batch \<Rightarrow> page_info \<Rightarrow> nat \<Rightarrow> nat \<Rightarrow> task option \<Rightarrow> task option" where
  "create_base cb page lastIdx i prev =
     Filter_createTask (all_stages ! i)
       (if i = 1 then ByInfo page else ById (page_info_id page)) prev (batch cb)
       (if i = 0 then None else Some (i = lastIdx \<and> \<not> batch cb \<and> debug cb))"

text \<open>
  Modelled from the spec: the units of work themselves (\<open>Task::process\<close> of each stage and
  \<open>LoadFileTask\<close>'s call operator) are not among the sources. By section 4.3 a unit of
  work run on its input performs the computation of its stage; on success it hands the
  output to its continuation and runs it, and the output of a unit without continuation
  is the final result; on failure it stops the chain and reports an error tagged with
  the failing stage. The computation of a stage is the parameter \<open>compute\<close>. The result
  comes with the stages that ran, in the order they ran.
\<close>

datatype 'd chain_result = Final 'd | StageFailed stage string | NoRootTask

fun run_task :: "(stage \<Rightarrow> page_arg \<Rightarrow> 'd \<Rightarrow> string + 'd) \<Rightarrow> task \<Rightarrow> 'd \<Rightarrow> stage list \<times> 'd chain_result" where
  "run_task compute (Task s p nxt b d) x =
     (case compute s p x of
        Inl e \<Rightarrow> ([s], StageFailed s e)
      | Inr y \<Rightarrow>
          (case nxt of
             None \<Rightarrow> ([s], Final y)
           | Some t \<Rightarrow> (case run_task compute t y of (done, r) \<Rightarrow> (s # done, r))))"

definition run_composite ::
  "(stage \<Rightarrow> page_arg \<Rightarrow> 'd \<Rightarrow> string + 'd) \<Rightarrow> load_file_task \<Rightarrow> 'd \<Rightarrow> stage list \<times> 'd chain_result" where
  "run_composite compute lt x =
     (case lft_next lt of None \<Rightarrow> ([], NoRootTask) | Some t \<Rightarrow> run_task compute t x)"

section \<open>Batch processing\<close>

text \<open>
  What running a composite task yields. The call operators are not among the sources, so
  \<open>process\<close> takes the execution of a task as the parameter \<open>exec\<close>: the task reports
  success, reports an error result with its message, or throws.
\<close>

datatype outcome = ResultOk | ResultError string | Thrown string

text \<open>The lines written to the standard streams, with the values they print.\<close>

datatype event =
    NoPagesToProcess
  | ProcessingPages int
  | ProcessingPage int int string
  | Completed
  | ProcessingFailed string
  | ExceptionCaught string
  | Progress int int int int
  | Summary int int int int
  | VerboseProcessing nat nat string
  | VerboseNewline

text \<open>
  The state of a run: the output so far, the composite tasks that were executed (in
  order), the local counter \<open>processed\<close> and the number of readings of the timer taken.
\<close>

record run_state =
  out :: "event list"
  executed :: "load_file_task list"
  processed :: int
  timer_reads :: nat

definition run_start :: run_state where
  "run_start = \<lparr> out = [], executed = [], processed = 0, timer_reads = 0 \<rparr>"

text \<open>
  Division as C++ has it: the quotient truncates towards zero and a zero divisor has no
  defined result. The same check guards the floating-point quotients, whose values are
  not modelled. 64-bit overflow of the operands is not modelled.
\<close>

definition checked_div :: "int \<Rightarrow> int \<Rightarrow> failure + int" where
  "checked_div a b = (if b = 0 then Inl DivisionByZero else Inr (a sdiv b))"

text \<open>
  The progress block of the optimized loop. \<open>clock n\<close> is the value of the \<open>n\<close>-th
  reading of \<open>timer.elapsed()\<close>. The quotients are \<open>100.0 * processed / total\<close> and
  \<open>(elapsed * total) / std::max(1, processed)\<close>.
\<close>

definition progress_update :: "(nat \<Rightarrow> int) \<Rightarrow> int \<Rightarrow> run_state \<Rightarrow> failure option \<times> run_state" where
  "progress_update clock total' st =
     (if processed st smod 10 = 0 \<or> processed st = total' then
        (case checked_div (100 * processed st) total' of
           Inl e \<Rightarrow> (Some e, st)
         | Inr progress \<Rightarrow>
             (let elapsed = clock (timer_reads st);
                  st1 = st\<lparr>timer_reads := Suc (timer_reads st)\<rparr>
              in case checked_div (elapsed * total') (max 1 (processed st)) of
                   Inl e \<Rightarrow> (Some e, st1)
                 | Inr estimated_total \<Rightarrow>
                     (let remaining = estimated_total - elapsed
                      in (None, st1\<lparr>out := out st1 @
                            [Progress (processed st) total' (elapsed sdiv 1000)
                               (remaining sdiv 1000)]\<rparr>))))
      else (None, st))"

text \<open>
  The body of the optimized loop for one page. A failed assertion inside
  \<open>createCompositeTask\<close> ends the process; the \<open>try\<close> block around the body catches
  every exception the task throws, and then the progress block is skipped. The branch
  for a null composite task cannot be taken: the task comes from \<open>new\<close>.
\<close>

definition process_page_opt ::
  "factory \<Rightarrow> (load_file_task \<Rightarrow> outcome) \<Rightarrow> (nat \<Rightarrow> int) \<Rightarrow> bool \<Rightarrow> int \<Rightarrow> page_info \<Rightarrow> run_state
     \<Rightarrow> failure option \<times> run_state" where
  "process_page_opt mk exec clock m_debug_flag total' page_info st =
     (let st1 = st\<lparr>out := out st @
                  [ProcessingPage (processed st + 1) total'
                     (filePath (imageId (page_info_id page_info)))]\<rparr>
      in case createCompositeTask_opt mk page_info 5 True m_debug_flag of
           Inl e \<Rightarrow> (Some e, st1)
         | Inr task \<Rightarrow>
             (let st2 = st1\<lparr>executed := executed st1 @ [task]\<rparr>
              in case exec task of
                   ResultOk \<Rightarrow>
                     progress_update clock total'
                       (st2\<lparr>processed := processed st2 + 1, out := out st2 @ [Completed]\<rparr>)
                 | ResultError msg \<Rightarrow>
                     progress_update clock total'
                       (st2\<lparr>out := out st2 @ [ProcessingFailed msg]\<rparr>)
                 | Thrown what \<Rightarrow>
                     (None, st2\<lparr>out := out st2 @ [ExceptionCaught what]\<rparr>)))"

fun process_pages_opt ::
  "factory \<Rightarrow> (load_file_task \<Rightarrow> outcome) \<Rightarrow> (nat \<Rightarrow> int) \<Rightarrow> bool \<Rightarrow> int \<Rightarrow> page_info list \<Rightarrow> run_state
     \<Rightarrow> failure option \<times> run_state" where
  "process_pages_opt mk exec clock m_debug_flag total' [] st = (None, st)"
| "process_pages_opt mk exec clock m_debug_flag total' (page_info # pages) st =
     (case process_page_opt mk exec clock m_debug_flag total' page_info st of
        (Some e, st') \<Rightarrow> (Some e, st')
      | (None, st') \<Rightarrow> process_pages_opt mk exec clock m_debug_flag total' pages st')"

text \<open>
  The optimized object: the page catalog and the stage sequence (\<open>None\<close> is a null
  pointer), the member \<open>m_debug\<close> that \<open>setDebugMode\<close> writes, and the output directory
  the file name generator was built with.
\<close>

record console_batch_opt =
  m_ptrPages_opt :: "page_info list option"
  m_ptrStages_opt :: "stage_sequence option"
  m_debug :: bool
  m_outFileNameGen :: string

definition setDebugMode :: "bool \<Rightarrow> console_batch_opt \<Rightarrow> console_batch_opt" where
  "setDebugMode dbg cb = cb\<lparr>m_debug := dbg\<rparr>"

text \<open>
  \<open>ConsoleBatch::process()\<close> of the optimized file. The result is the failure that ended
  the run (\<open>None\<close> when it returned) and the state it reached. The average time per page
  is the floating-point quotient \<open>total_time / std::max(1, processed)\<close>.
\<close>

definition process_opt ::
  "factory \<Rightarrow> (load_file_task \<Rightarrow> outcome) \<Rightarrow> (nat \<Rightarrow> int) \<Rightarrow> console_batch_opt
     \<Rightarrow> failure option \<times> run_state" where
  "process_opt mk exec clock cb =
     (case (m_ptrPages_opt cb, m_ptrStages_opt cb) of
        (Some pages, Some stages) \<Rightarrow>
          (if length pages = 0 then (None, run_start\<lparr>out := [NoPagesToProcess]\<rparr>)
           else
             (let total' = int (length pages);
                  st0 = run_start\<lparr>out := [ProcessingPages total']\<rparr>
              in case process_pages_opt mk exec clock (m_debug cb) total' pages st0 of
                   (Some e, st) \<Rightarrow> (Some e, st)
                 | (None, st) \<Rightarrow>
                     (let total_time = clock (timer_reads st);
                          st1 = st\<lparr>timer_reads := Suc (timer_reads st)\<rparr>
                      in case checked_div total_time (max 1 (processed st1)) of
                           Inl e \<Rightarrow> (Some e, st1)
                         | Inr avg_time \<Rightarrow>
                             (let st2 = st1\<lparr>out := out st1 @
                                    [Summary total' (processed st1) (total' - processed st1)
                                       total_time]\<rparr>
                              in (if processed st2 < total'
                                  then Some (RuntimeError ''Some pages failed to process'')
                                  else None, st2)))))
      | _ \<Rightarrow> (Some (RuntimeError ''Project not properly initialized''), run_start))"

text \<open>
  The body of the baseline loop for page number \<open>i\<close>: no handler surrounds the call of
  the task, so what it throws leaves \<open>process\<close>, and the result it returns is dropped.
\<close>

definition process_page ::
  "factory \<Rightarrow> (load_file_task \<Rightarrow> outcome) \<Rightarrow> bool \<Rightarrow> nat \<Rightarrow> nat \<Rightarrow> page_info \<Rightarrow> console_batch \<times> run_state
     \<Rightarrow> failure option \<times> console_batch \<times> run_state" where
  "process_page mk exec isVerbose num_pages i page_info cs =
     (let cb = fst cs; st = snd cs;
          st1 = (if isVerbose
                 then st\<lparr>out := out st @
                        [VerboseProcessing (i + 1) num_pages
                           (filePath (imageId (page_info_id page_info)))]\<rparr>
                 else st)
      in case createCompositeTask mk cb page_info (lastFilterIdx (m_ptrStages cb)) of
           (Inl e, cb') \<Rightarrow> (Some e, cb', st1)
         | (Inr bgTask, cb') \<Rightarrow>
             (let st2 = st1\<lparr>executed := executed st1 @ [bgTask]\<rparr>
              in case exec bgTask of
                   Thrown what \<Rightarrow> (Some (Exception what), cb', st2)
                 | _ \<Rightarrow> (None, cb', st2)))"

fun process_loop ::
  "factory \<Rightarrow> (load_file_task \<Rightarrow> outcome) \<Rightarrow> bool \<Rightarrow> nat \<Rightarrow> nat \<Rightarrow> page_info list \<Rightarrow> console_batch \<times> run_state
     \<Rightarrow> failure option \<times> console_batch \<times> run_state" where
  "process_loop mk exec isVerbose num_pages i [] cs = (None, cs)"
| "process_loop mk exec isVerbose num_pages i (page_info # pages) cs =
     (case process_page mk exec isVerbose num_pages i page_info cs of
        (Some e, cs') \<Rightarrow> (Some e, cs')
      | (None, cs') \<Rightarrow> process_loop mk exec isVerbose num_pages (Suc i) pages cs')"

text \<open>
  \<open>ConsoleBatch::process()\<close> of the baseline; \<open>isVerbose\<close> is
  \<open>CommandLine::get().isVerbose()\<close>. A null \<open>m_ptrPages\<close> is dereferenced at once.
\<close>

definition process ::
  "factory \<Rightarrow> (load_file_task \<Rightarrow> outcome) \<Rightarrow> bool \<Rightarrow> console_batch
     \<Rightarrow> failure option \<times> console_batch \<times> run_state" where
  "process mk exec isVerbose cb =
     (case m_ptrPages cb of
        None \<Rightarrow> (Some NullDereference, cb, run_start)
      | Some page_sequence \<Rightarrow>
          (case process_loop mk exec isVerbose (length page_sequence) 0 page_sequence
                  (cb, run_start) of
             (Some e, cs) \<Rightarrow> (Some e, cs)
           | (None, cb', st) \<Rightarrow>
               (None, cb', if isVerbose then st\<lparr>out := out st @ [VerboseNewline]\<rparr> else st)))"

text \<open>
  Two readings of a run of the baseline loop, where \<open>run p\<close> is what executing the task
  of page \<open>p\<close> yields: the pages whose tasks are executed (those up to and including the
  first one whose task throws), and the exception that leaves the loop, if any.
\<close>

definition throws :: "outcome \<Rightarrow> bool" where
  "throws r = (case r of Thrown what \<Rightarrow> True | _ \<Rightarrow> False)"

fun attempted :: "(page_info \<Rightarrow> outcome) \<Rightarrow> page_info list \<Rightarrow> page_info list" where
  "attempted run [] = []"
| "attempted run (p # ps) = p # (if throws (run p) then [] else attempted run ps)"

fun first_failure :: "(page_info \<Rightarrow> outcome) \<Rightarrow> page_info list \<Rightarrow> failure option" where
  "first_failure run [] = None"
| "first_failure run (p # ps) =
     (case run p of Thrown what \<Rightarrow> Some (Exception what) | _ \<Rightarrow> first_failure run ps)"

section \<open>Construction from a project file\<close>

text \<open>
  What the absent readers (\<open>QFile\<close>, \<open>QDomDocument\<close>, \<open>ProjectReader\<close>) find in a project
  file: whether it opens, whether its content parses, the pages and the output directory
  read from it.
\<close>

record project_file =
  file_open :: bool
  doc_setContent :: bool
  reader_pages :: "page_info list option"
  reader_outputDirectory :: string

text \<open>
  \<open>ConsoleBatch::ConsoleBatch(QString const project_file)\<close> of the baseline. Relinking is
  performed on the settings stores of the stages, which are not modelled. After the check
  of the output directory the constructor calls \<open>m_ptrPages->layoutDirection()\<close> to build
  the file name generator, which dereferences a null \<open>m_ptrPages\<close>.
\<close>

definition ConsoleBatch :: "project_file \<Rightarrow> failure + console_batch" where
  "ConsoleBatch pf =
     (if \<not> file_open pf then Inl (RuntimeError ''Unable to open the project file.'')
      else if \<not> doc_setContent pf then Inl (RuntimeError ''The project file is broken.'')
      else if reader_outputDirectory pf = [] then Inl (RuntimeError ''Output directory is not set.'')
      else (case reader_pages pf of
              None \<Rightarrow> Inl NullDereference
            | Some pages \<Rightarrow>
                Inr \<lparr> batch = True, debug = True, m_ptrStages = StageSequence_fixed,
                      m_ptrPages = Some pages \<rparr>))"

text \<open>
  \<open>ConsoleBatch::ConsoleBatch(QString const& project_file)\<close> of the optimized file. No
  initializer writes \<open>m_debug\<close>, so its first value is the parameter \<open>m_debug0\<close>. The
  output directory read from the file goes to the file name generator unchecked.
\<close>

definition ConsoleBatch_opt :: "bool \<Rightarrow> project_file \<Rightarrow> failure + console_batch_opt" where
  "ConsoleBatch_opt m_debug0 pf =
     (if \<not> file_open pf then Inl (RuntimeError ''Unable to open project file for reading'')
      else if \<not> doc_setContent pf
        then Inl (RuntimeError ''Project file is not a valid XML document'')
      else if reader_pages pf = None then Inl (RuntimeError ''Failed to load project pages'')
      else Inr \<lparr> m_ptrPages_opt = reader_pages pf, m_ptrStages_opt = Some StageSequence_fixed,
                 m_debug = m_debug0, m_outFileNameGen = reader_outputDirectory pf \<rparr>)"

section \<open>Comparing units of work\<close>



section \<open>The composite task of a page\<close>

text \<open>
  The composite tasks the two loops build for a page through the final stage, in the
  words of the spec's builder.
\<close>

definition page_task_opt :: "bool \<Rightarrow> page_info \<Rightarrow> load_file_task" where
  "page_task_opt dbg page = LoadFileTask page (build_spec (create_opt page True dbg) 5)"

definition page_task :: "console_batch \<Rightarrow> page_info \<Rightarrow> load_file_task" where
  "page_task cb page = LoadFileTask page (build_spec (create_base cb page 5) 5)"

section \<open>Example inputs\<close>

definition page_a :: page_info where
  "page_a = PageInfo (PageId (ImageId ''a.tif'' 0) SINGLE_PAGE)"

definition page_b :: page_info where
  "page_b = PageInfo (PageId (ImageId ''b.tif'' 0) SINGLE_PAGE)"

definition project_example :: project_file where
  "project_example = \<lparr> file_open = True, doc_setContent = True,
     reader_pages = Some [page_a, page_b], reader_outputDirectory = ''out'' \<rparr>"

definition batch_example :: console_batch where
  "batch_example = \<lparr> batch = True, debug = True, m_ptrStages = StageSequence_fixed,
     m_ptrPages = Some [page_a, page_b] \<rparr>"

definition opt_example :: console_batch_opt where
  "opt_example = \<lparr> m_ptrPages_opt = Some [page_a, page_b],
     m_ptrStages_opt = Some StageSequence_fixed, m_debug = False,
     m_outFileNameGen = ''out'' \<rparr>"

text \<open>A run in which the task of \<open>page_b\<close> reports an error, and one in which the task of
  \<open>page_a\<close> throws.\<close>

definition exec_b_fails :: "load_file_task \<Rightarrow> outcome" where
  "exec_b_fails t = (if lft_page t = page_b then ResultError ''unreadable image'' else ResultOk)"

definition exec_a_throws :: "load_file_task \<Rightarrow> outcome" where
  "exec_a_throws t = (if lft_page t = page_a then Thrown ''bad_alloc'' else ResultOk)"

definition clock_example :: "nat \<Rightarrow> int" where
  "clock_example n = 1000 * int n"

text \<open>A project file that opens and parses, with two pages and no output directory.\<close>

definition project_no_outdir :: project_file where
  "project_no_outdir = \<lparr> file_open = True, doc_setContent = True,
     reader_pages = Some [page_a, page_b], reader_outputDirectory = [] \<rparr>"

text \<open>A factory that yields the null pointer for the fix-orientation stage only.\<close>

definition factory_null_root :: factory where
  "factory_null_root s p nxt b d =
     (if s = FIX_ORIENTATION then None else Filter_createTask s p nxt b d)"

section \<open>Properties of the builders\<close>

lemma run_task_prefix: "prefix (fst (run_task compute t x)) (map task_stage (chain t))"
proof (induction compute t x rule: run_task.induct)
  case (1 compute s p nxt b d x)
  show ?case
  proof (cases "compute s p x")
    case (Inl e)
    then show ?thesis by simp
  next
    case (Inr y)
    show ?thesis
    proof (cases nxt)
      case None
      with Inr show ?thesis by simp
    next
      case (Some t)
      from "1.IH" [OF Inr Some] have "prefix (fst (run_task compute t y)) (map task_stage (chain t))" .
      with Inr Some show ?thesis
        by (auto split: prod.splits)
    qed
  qed
qed

lemma run_task_all_succeed:
  assumes ok: "\<And>s p x. compute s p x = Inr (f s x)"
  shows "run_task compute t x =
           (map task_stage (chain t), Final (fold f (map task_stage (chain t)) x))"
  using ok
proof (induction compute t x rule: run_task.induct)
  case (1 compute s p nxt b d x)
  have c: "compute s p x = Inr (f s x)" by (rule "1.prems")
  show ?case
  proof (cases nxt)
    case None
    with c show ?thesis by simp
  next
    case (Some t)
    from "1.IH" [OF c Some "1.prems"]
    have "run_task compute t (f s x) =
            (map task_stage (chain t), Final (fold f (map task_stage (chain t)) (f s x)))" .
    with c Some show ?thesis by simp
  qed
qed

lemma stage_index_cases:
  "0 \<le> k \<Longrightarrow> k \<le> 5 \<Longrightarrow> k = 0 \<or> k = 1 \<or> k = 2 \<or> k = 3 \<or> k = 4 \<or> k = (5::int)"
  by arith

lemmas builder_defs = guarded_create_def Filter_createTask_def build_spec_def
  create_opt_def create_base_def all_stages_def StageSequence_fixed_def Let_def

lemma createCompositeTask_opt_walk:
  assumes "0 \<le> k" and "k \<le> 5"
  shows "createCompositeTask_opt Filter_createTask page k b d =
           Inr (LoadFileTask page (build_spec (create_opt page b d) (nat k)))"
  using stage_index_cases [OF assms]
  by (elim disjE) (simp_all add: createCompositeTask_opt_def builder_defs eval_nat_numeral)

lemma createCompositeTask_walk:
  assumes "0 \<le> k" and "k \<le> 5" and "m_ptrStages cb = StageSequence_fixed"
  shows "fst (createCompositeTask Filter_createTask cb page k) =
           Inr (LoadFileTask page (build_spec (create_base cb page (nat k)) (nat k)))"
  using stage_index_cases [OF assms(1,2)] assms(3)
  by (elim disjE) (simp_all add: createCompositeTask_def builder_defs eval_nat_numeral)

lemma chain_create_opt:
  assumes "0 \<le> k" and "k \<le> 5"
  shows "\<exists>t. build_spec (create_opt page b d) (nat k) = Some t \<and>
             map task_stage (chain t) = stages_upto k"
  using stage_index_cases [OF assms]
  by (elim disjE) (simp_all add: builder_defs stages_upto_def eval_nat_numeral)

lemma chain_create_base:
  assumes "0 \<le> k" and "k \<le> 5"
  shows "\<exists>t. build_spec (create_base cb page (nat k)) (nat k) = Some t \<and>
             map task_stage (chain t) = stages_upto k"
  using stage_index_cases [OF assms]
  by (elim disjE) (simp_all add: builder_defs stages_upto_def eval_nat_numeral)

lemma run_composite_chain:
  assumes "root = Some t" and "map task_stage (chain t) = ss"
  shows "prefix (fst (run_composite compute (LoadFileTask page root) x)) ss \<and>
         ((\<forall>s p y. compute s p y = Inr (f s y)) \<longrightarrow>
            run_composite compute (LoadFileTask page root) x = (ss, Final (fold f ss x)))"
proof -
  have "prefix (fst (run_task compute t x)) ss"
    using run_task_prefix [of compute t x] assms(2) by simp
  moreover have "run_task compute t x = (ss, Final (fold f ss x))"
    if "\<forall>s p y. compute s p y = Inr (f s y)"
    using run_task_all_succeed [of compute f t x] that assms(2) by simp
  ultimately show ?thesis
    using assms(1) by (simp add: run_composite_def)
qed

text \<open>
  Claim C1. For every page and every last stage index \<open>k\<close> in \<open>[0, 5]\<close>, both builders
  return the load-file task whose root is what the backward walk of the spec builds:
  from \<open>k\<close> down to stage 0, with the null continuation for the task of stage \<open>k\<close> and
  each fresh task as the continuation of the next-lower stage. The chain so built
  consists of the tasks of stages \<open>0..k\<close> in this order. When it is executed, the stages
  that run are always an initial segment of \<open>0..k\<close> in forward order, so no stage above
  \<open>k\<close> runs; when no stage fails, exactly the stages \<open>0..k\<close> run and the final result is
  the output of stage \<open>k\<close>, computed from the output of the stages below it.
\<close>

theorem createCompositeTask_runs_stages_0_to_k:
  fixes compute :: "stage \<Rightarrow> page_arg \<Rightarrow> 'd \<Rightarrow> string + 'd"
    and page :: page_info and b :: bool and d :: bool and cb :: console_batch and k :: int
  assumes "0 \<le> k" and "k \<le> 5" and "m_ptrStages cb = StageSequence_fixed"
  defines "lo \<equiv> LoadFileTask page (build_spec (create_opt page b d) (nat k))"
    and "lb \<equiv> LoadFileTask page (build_spec (create_base cb page (nat k)) (nat k))"
  shows "createCompositeTask_opt Filter_createTask page k b d = Inr lo
       \<and> fst (createCompositeTask Filter_createTask cb page k) = Inr lb
       \<and> map task_stage (chain_of (Inr lo)) = stages_upto k
       \<and> map task_stage (chain_of (Inr lb)) = stages_upto k
       \<and> prefix (fst (run_composite compute lo x)) (stages_upto k)
       \<and> prefix (fst (run_composite compute lb x)) (stages_upto k)
       \<and> ((\<forall>s p y. compute s p y = Inr (f s y)) \<longrightarrow>
            run_composite compute lo x = (stages_upto k, Final (fold f (stages_upto k) x))
          \<and> run_composite compute lb x = (stages_upto k, Final (fold f (stages_upto k) x)))
       \<and> fold f (stages_upto k) x = f (all_stages ! nat k) (fold f (stages_upto (k - 1)) x)"
proof -
  obtain to where to: "build_spec (create_opt page b d) (nat k) = Some to"
      "map task_stage (chain to) = stages_upto k"
    using chain_create_opt [OF assms(1,2)] by blast
  obtain tb where tb: "build_spec (create_base cb page (nat k)) (nat k) = Some tb"
      "map task_stage (chain tb) = stages_upto k"
    using chain_create_base [OF assms(1,2)] by blast
  have built: "createCompositeTask_opt Filter_createTask page k b d = Inr lo"
      "fst (createCompositeTask Filter_createTask cb page k) = Inr lb"
    unfolding lo_def lb_def
    by (rule createCompositeTask_opt_walk [OF assms(1,2)])
       (rule createCompositeTask_walk [OF assms(1,2,3)])
  have stages: "map task_stage (chain_of (Inr lo)) = stages_upto k"
      "map task_stage (chain_of (Inr lb)) = stages_upto k"
    using to tb by (simp_all add: chain_of_def lo_def lb_def)
  have run_o: "prefix (fst (run_composite compute lo x)) (stages_upto k) \<and>
      ((\<forall>s p y. compute s p y = Inr (f s y)) \<longrightarrow>
         run_composite compute lo x = (stages_upto k, Final (fold f (stages_upto k) x)))"
    unfolding lo_def by (rule run_composite_chain [OF to])
  have run_b: "prefix (fst (run_composite compute lb x)) (stages_upto k) \<and>
      ((\<forall>s p y. compute s p y = Inr (f s y)) \<longrightarrow>
         run_composite compute lb x = (stages_upto k, Final (fold f (stages_upto k) x)))"
    unfolding lb_def by (rule run_composite_chain [OF tb])
  have last_stage: "fold f (stages_upto k) x = f (all_stages ! nat k) (fold f (stages_upto (k - 1)) x)"
    using stage_index_cases [OF assms(1,2)]
    by (elim disjE) (simp_all add: stages_upto_def all_stages_def)
  from built stages run_o run_b last_stage show ?thesis by blast
qed

theorem createCompositeTask_runs_stages_0_to_k_witness:
  "createCompositeTask_opt Filter_createTask page_a 2 True False =
     Inr (LoadFileTask page_a (build_spec (create_opt page_a True False) 2))
   \<and> fst (createCompositeTask Filter_createTask batch_example page_a 2) =
     Inr (LoadFileTask page_a (build_spec (create_base batch_example page_a 2) 2))
   \<and> run_composite (\<lambda>s p y. Inr (s # y))
        (LoadFileTask page_a (build_spec (create_base batch_example page_a 2) 2)) [] =
      ([FIX_ORIENTATION, PAGE_SPLIT, DESKEW], Final [DESKEW, PAGE_SPLIT, FIX_ORIENTATION])"
  using createCompositeTask_runs_stages_0_to_k
    [where k = 2 and cb = batch_example and page = page_a and b = True and d = False
       and compute = "\<lambda>s p y. Inr (s # y)" and f = "(#)" and x = "[]"]
  by (simp add: batch_example_def stages_upto_def all_stages_def)

section \<open>Properties of the optimized loop\<close>

lemma createCompositeTask_opt_failure:
  "createCompositeTask_opt mk page k b d = Inl e \<Longrightarrow> e = AssertionFailed"
  by (auto simp: createCompositeTask_opt_def guarded_create_def Let_def
      split: sum.splits if_splits option.splits)

lemma createCompositeTask_opt_final:
  "createCompositeTask_opt Filter_createTask page 5 True dbg = Inr (page_task_opt dbg page)"
  using createCompositeTask_opt_walk [of 5 page True dbg] by (simp add: page_task_opt_def)

lemma max_one_nonzero: "max 1 (p::int) \<noteq> 0"
  by arith

lemma progress_update_total:
  assumes "total' \<noteq> 0"
  shows "fst (progress_update clock total' st) = None
       \<and> executed (snd (progress_update clock total' st)) = executed st
       \<and> processed (snd (progress_update clock total' st)) = processed st"
  using assms by (simp add: progress_update_def checked_div_def Let_def max_one_nonzero)

lemma process_page_opt_step:
  assumes "total' \<noteq> 0"
  shows "fst (process_page_opt Filter_createTask exec clock dbg total' page st) = None
       \<and> executed (snd (process_page_opt Filter_createTask exec clock dbg total' page st)) =
           executed st @ [page_task_opt dbg page]
       \<and> processed (snd (process_page_opt Filter_createTask exec clock dbg total' page st)) =
           processed st + (if exec (page_task_opt dbg page) = ResultOk then 1 else 0)"
proof (cases "exec (page_task_opt dbg page)")
  case ResultOk
  then show ?thesis
    using progress_update_total [OF assms]
    by (simp add: process_page_opt_def createCompositeTask_opt_final Let_def)
next
  case (ResultError msg)
  then show ?thesis
    using progress_update_total [OF assms]
    by (simp add: process_page_opt_def createCompositeTask_opt_final Let_def)
next
  case (Thrown what)
  then show ?thesis
    by (simp add: process_page_opt_def createCompositeTask_opt_final Let_def)
qed

lemma process_pages_opt_all:
  assumes "total' \<noteq> 0"
  shows "fst (process_pages_opt Filter_createTask exec clock dbg total' pages st) = None
       \<and> executed (snd (process_pages_opt Filter_createTask exec clock dbg total' pages st)) =
           executed st @ map (page_task_opt dbg) pages
       \<and> processed (snd (process_pages_opt Filter_createTask exec clock dbg total' pages st)) =
           processed st
             + int (length (filter (\<lambda>p. exec (page_task_opt dbg p) = ResultOk) pages))"
proof (induction pages arbitrary: st)
  case Nil
  show ?case by simp
next
  case (Cons page pages)
  obtain r st' where step: "process_page_opt Filter_createTask exec clock dbg total' page st = (r, st')"
    by (cases "process_page_opt Filter_createTask exec clock dbg total' page st")
  from process_page_opt_step [OF assms, of exec clock dbg page st] step
  have r: "r = None"
    and ex: "executed st' = executed st @ [page_task_opt dbg page]"
    and pr: "processed st' = processed st + (if exec (page_task_opt dbg page) = ResultOk then 1 else 0)"
    by simp_all
  from Cons.IH [of st'] step r ex pr show ?case by simp
qed

lemma process_page_opt_failure:
  assumes "fst (process_page_opt mk exec clock dbg total' page st) = Some e" and "total' \<noteq> 0"
  shows "e = AssertionFailed"
proof (cases "createCompositeTask_opt mk page 5 True dbg")
  case (Inl e')
  with assms(1) have "e = e'" by (simp add: process_page_opt_def Let_def)
  with Inl createCompositeTask_opt_failure show ?thesis by blast
next
  case (Inr task)
  with assms(1) progress_update_total [OF assms(2)] show ?thesis
    by (cases "exec task") (simp_all add: process_page_opt_def Let_def)
qed

lemma process_pages_opt_failure:
  assumes "total' \<noteq> 0"
  shows "fst (process_pages_opt mk exec clock dbg total' pages st) = Some e \<Longrightarrow> e = AssertionFailed"
proof (induction pages arbitrary: st)
  case Nil
  then show ?case by simp
next
  case (Cons page pages)
  obtain r st' where step: "process_page_opt mk exec clock dbg total' page st = (r, st')"
    by (cases "process_page_opt mk exec clock dbg total' page st")
  show ?case
  proof (cases r)
    case None
    with Cons.prems step have "fst (process_pages_opt mk exec clock dbg total' pages st') = Some e"
      by simp
    then show ?thesis by (rule Cons.IH)
  next
    case (Some e')
    with Cons.prems step have "e = e'" by simp
    moreover from step Some have "fst (process_page_opt mk exec clock dbg total' page st) = Some e'"
      by simp
    ultimately show ?thesis using process_page_opt_failure [OF _ assms] by blast
  qed
qed

lemma process_opt_failure:
  assumes "fst (process_opt mk exec clock cb) = Some e"
  shows "e = AssertionFailed \<or> (\<exists>msg. e = RuntimeError msg)"
proof (cases "m_ptrPages_opt cb")
  case None
  with assms show ?thesis by (auto simp: process_opt_def)
next
  case (Some pages)
  note pages = this
  show ?thesis
  proof (cases "m_ptrStages_opt cb")
    case None
    with pages assms show ?thesis by (auto simp: process_opt_def)
  next
    case (Some stages)
    show ?thesis
    proof (cases "pages = []")
      case True
      with pages Some assms show ?thesis by (auto simp: process_opt_def)
    next
      case False
      then have nz: "int (length pages) \<noteq> 0" by simp
      obtain r st where loop: "process_pages_opt mk exec clock (m_debug cb) (int (length pages)) pages
            (run_start\<lparr>out := [ProcessingPages (int (length pages))]\<rparr>) = (r, st)"
        by (cases "process_pages_opt mk exec clock (m_debug cb) (int (length pages)) pages
            (run_start\<lparr>out := [ProcessingPages (int (length pages))]\<rparr>)")
      show ?thesis
      proof (cases r)
        case None
        with pages Some False loop assms show ?thesis
          by (auto simp: process_opt_def Let_def checked_div_def max_one_nonzero split: if_splits)
      next
        case (Some e')
        with loop have "fst (process_pages_opt mk exec clock (m_debug cb) (int (length pages)) pages
            (run_start\<lparr>out := [ProcessingPages (int (length pages))]\<rparr>)) = Some e'"
          by simp
        then have "e' = AssertionFailed" by (rule process_pages_opt_failure [OF nz])
        moreover from pages \<open>m_ptrStages_opt cb = Some stages\<close> False loop Some assms
        have "e = e'" by (simp add: process_opt_def Let_def)
        ultimately show ?thesis by simp
      qed
    qed
  qed
qed

lemma filter_ok_length:
  "(length (filter P xs) < length xs) = (\<not> list_all P xs)"
  by (induction xs) (auto simp: less_Suc_eq_le intro: le_less_trans [OF length_filter_le])

lemma filter_split_length:
  "int (length xs) - int (length (filter P xs)) = int (length (filter (\<lambda>x. \<not> P x) xs))"
  using sum_length_filter_compl [of P xs] by simp

lemma process_opt_run:
  fixes cb :: console_batch_opt and exec :: "load_file_task \<Rightarrow> outcome"
  assumes "m_ptrPages_opt cb = Some pages" and "m_ptrStages_opt cb = Some stages"
    and "pages \<noteq> []"
  defines "ok \<equiv> \<lambda>p. exec (page_task_opt (m_debug cb) p) = ResultOk"
  shows "\<exists>st t. process_opt Filter_createTask exec clock cb =
           (if list_all ok pages then None
            else Some (RuntimeError ''Some pages failed to process''), st)
         \<and> executed st = map (page_task_opt (m_debug cb)) pages
         \<and> last (out st) = Summary (int (length pages)) (int (length (filter ok pages)))
              (int (length (filter (\<lambda>p. \<not> ok p) pages))) t"
proof -
  let ?n = "int (length pages)"
  let ?st0 = "run_start\<lparr>out := [ProcessingPages ?n]\<rparr>"
  from assms(3) have nz: "?n \<noteq> 0" by simp
  obtain r st where loop:
    "process_pages_opt Filter_createTask exec clock (m_debug cb) ?n pages ?st0 = (r, st)"
    by (cases "process_pages_opt Filter_createTask exec clock (m_debug cb) ?n pages ?st0")
  from process_pages_opt_all [OF nz, of exec clock "m_debug cb" pages ?st0] loop
  have r: "r = None"
    and ex: "executed st = map (page_task_opt (m_debug cb)) pages"
    and pr: "processed st = int (length (filter ok pages))"
    by (simp_all add: run_start_def ok_def)
  have lt: "(processed st < ?n) = (\<not> list_all ok pages)"
    using filter_ok_length [of ok pages] pr by simp
  have failed: "?n - processed st = int (length (filter (\<lambda>p. \<not> ok p) pages))"
    using filter_split_length [of pages ok] pr by simp
  show ?thesis
    using assms(1,2,3) loop r ex pr lt failed
    by (simp add: process_opt_def Let_def checked_div_def max_one_nonzero)
qed

lemma process_opt_executed:
  fixes cb :: console_batch_opt
  assumes "m_ptrPages_opt cb = Some pages" and "m_ptrStages_opt cb = Some stages"
  shows "executed (snd (process_opt Filter_createTask exec clock cb)) =
           map (page_task_opt (m_debug cb)) pages"
proof (cases "pages = []")
  case True
  with assms show ?thesis
    by (simp add: process_opt_def run_start_def)
next
  case False
  from process_opt_run [OF assms False, of exec clock] show ?thesis
    by auto
qed

text \<open>
  Claim C4. An optimized run over an initialized project attempts every page of the
  catalog, in order. It returns normally exactly when the task of every page reported
  success; otherwise it ends with the error "Some pages failed to process". Unless the
  catalog is empty, the last line of output is the summary, with the total, the number
  of pages that succeeded and, as the failure count, the number of pages whose task did
  not report success (the total minus the succeeded ones).
\<close>

theorem process_opt_reports_failures:
  fixes cb :: console_batch_opt and exec :: "load_file_task \<Rightarrow> outcome"
  assumes "m_ptrPages_opt cb = Some pages" and "m_ptrStages_opt cb = Some stages"
  defines "ok \<equiv> \<lambda>p. exec (page_task_opt (m_debug cb) p) = ResultOk"
  shows "executed (snd (process_opt Filter_createTask exec clock cb)) =
           map (page_task_opt (m_debug cb)) pages
       \<and> (fst (process_opt Filter_createTask exec clock cb) = None) = list_all ok pages
       \<and> (\<not> list_all ok pages \<longrightarrow>
            fst (process_opt Filter_createTask exec clock cb) =
              Some (RuntimeError ''Some pages failed to process''))
       \<and> (pages \<noteq> [] \<longrightarrow>
            (\<exists>t. last (out (snd (process_opt Filter_createTask exec clock cb))) =
               Summary (int (length pages)) (int (length (filter ok pages)))
                 (int (length (filter (\<lambda>p. \<not> ok p) pages))) t))"
proof (cases "pages = []")
  case True
  with assms(1,2) show ?thesis
    by (simp add: process_opt_def run_start_def)
next
  case False
  from process_opt_run [OF assms(1,2) False, of exec clock]
  obtain st t where run: "process_opt Filter_createTask exec clock cb =
           (if list_all ok pages then None
            else Some (RuntimeError ''Some pages failed to process''), st)"
    and ex: "executed st = map (page_task_opt (m_debug cb)) pages"
    and su: "last (out st) = Summary (int (length pages)) (int (length (filter ok pages)))
              (int (length (filter (\<lambda>p. \<not> ok p) pages))) t"
    unfolding ok_def by blast
  from run ex su show ?thesis by auto
qed

theorem process_opt_reports_failures_witness:
  "fst (process_opt Filter_createTask exec_b_fails clock_example opt_example) =
     Some (RuntimeError ''Some pages failed to process'')
   \<and> executed (snd (process_opt Filter_createTask exec_b_fails clock_example opt_example)) =
     [page_task_opt False page_a, page_task_opt False page_b]
   \<and> (\<exists>t. last (out (snd (process_opt Filter_createTask exec_b_fails clock_example opt_example))) =
          Summary 2 1 1 t)"
  using process_opt_reports_failures
    [where cb = opt_example and pages = "[page_a, page_b]" and stages = StageSequence_fixed
       and exec = exec_b_fails and clock = clock_example]
  by (simp add: opt_example_def exec_b_fails_def page_task_opt_def page_a_def page_b_def)

text \<open>
  Claim C10. The divisor of the estimated total time (from which the remaining time is
  derived) and of the average time per page is \<open>std::max(1, processed)\<close>, which is at
  least one for every value of \<open>processed\<close>, zero included, so both quotients are
  defined; and no run of the optimized \<open>process\<close>, whatever the factory, the tasks and the
  timer do, ends in a division by zero.
\<close>

theorem process_opt_no_division_by_zero:
  "1 \<le> max 1 p
   \<and> checked_div (elapsed * total') (max 1 p) = Inr ((elapsed * total') sdiv max 1 p)
   \<and> checked_div total_time (max 1 p) = Inr (total_time sdiv max 1 p)
   \<and> fst (process_opt mk exec clock cb) \<noteq> Some DivisionByZero"
proof -
  have "fst (process_opt mk exec clock cb) \<noteq> Some DivisionByZero"
    using process_opt_failure [of mk exec clock cb DivisionByZero] by auto
  then show ?thesis
    by (simp add: checked_div_def max_one_nonzero)
qed

section \<open>The debug flag\<close>

lemma createCompositeTask_batch_debug_off:
  assumes "batch cb" and "m_ptrStages cb = StageSequence_fixed"
  shows "Some True \<notin> set (map task_debug
           (chain_of (fst (createCompositeTask Filter_createTask cb page k))))
       \<and> \<not> debug (snd (createCompositeTask Filter_createTask cb page k))"
proof -
  consider "k < 0" | "k = 0" | "k = 1" | "k = 2" | "k = 3" | "k = 4" | "5 \<le> k"
    by arith
  then show ?thesis
    using assms
    by cases (simp_all add: createCompositeTask_def builder_defs chain_of_def)
qed

text \<open>
  Claim C2. The claim holds of the baseline, where batch mode clears the member
  \<open>debug\<close> before the first factory call (lemma \<open>createCompositeTask_batch_debug_off\<close>).
  The optimized builder hands its parameter \<open>debug\<close> unchanged to all six factory calls:
  with the debug mode switched on, every stage of a chain through the final stage
  receives the debug flag true, in the builder and in the tasks a run executes.
\<close>

theorem createCompositeTask_opt_debug_every_stage:
  "map task_debug (chain_of (createCompositeTask_opt Filter_createTask page_a 5 True True)) =
     [Some True, Some True, Some True, Some True, Some True, Some True]
   \<and> executed (snd (process_opt Filter_createTask exec clock (setDebugMode True opt_example))) =
     [page_task_opt True page_a, page_task_opt True page_b]
   \<and> map task_debug (chain_of (Inr (page_task_opt True page_b))) =
     [Some True, Some True, Some True, Some True, Some True, Some True]"
proof -
  have "executed (snd (process_opt Filter_createTask exec clock (setDebugMode True opt_example))) =
     [page_task_opt True page_a, page_task_opt True page_b]"
    using process_opt_run [where cb = "setDebugMode True opt_example"
        and pages = "[page_a, page_b]" and stages = StageSequence_fixed and exec = exec
        and clock = clock]
    by (auto simp: setDebugMode_def opt_example_def)
  then show ?thesis
    by (simp add: createCompositeTask_opt_def builder_defs chain_of_def page_task_opt_def
        eval_nat_numeral)
qed

section \<open>The root task\<close>

lemma root_shape:
  "fst (case x of None \<Rightarrow> Inl AssertionFailed | Some t \<Rightarrow> Inr (L x), y) = Inl AssertionFailed
   \<or> (\<exists>t. fst (case x of None \<Rightarrow> Inl AssertionFailed | Some t \<Rightarrow> Inr (L x), y) = Inr (L (Some t)))"
  by (cases x) auto

lemma createCompositeTask_root:
  "fst (createCompositeTask mk cb page k) = Inl AssertionFailed
   \<or> (\<exists>t. fst (createCompositeTask mk cb page k) = Inr (LoadFileTask page (Some t)))"
  unfolding createCompositeTask_def Let_def split_beta
  by (rule root_shape [where L = "LoadFileTask page"])

lemma createCompositeTask_no_root:
  "k < fixOrientationFilterIdx (m_ptrStages cb) \<Longrightarrow>
   fst (createCompositeTask mk cb page k) = Inl AssertionFailed"
  unfolding createCompositeTask_def Let_def split_beta
  by (simp split del: if_split)

lemma guarded_create_cases:
  "guarded_create g r = Inl AssertionFailed \<or> (\<exists>x. guarded_create g r = Inr x)"
  by (simp add: guarded_create_def split: option.splits)

lemma opt_step:
  assumes "\<And>x. f x = Inl AssertionFailed \<or> (\<exists>t. f x = Inr (LoadFileTask page (Some t)))"
  shows "(case guarded_create g r of Inl e \<Rightarrow> Inl e | Inr x \<Rightarrow> f x) = Inl AssertionFailed
     \<or> (\<exists>t. (case guarded_create g r of Inl e \<Rightarrow> Inl e | Inr x \<Rightarrow> f x) =
            Inr (LoadFileTask page (Some t)))"
proof -
  from guarded_create_cases [of g r] show ?thesis
  proof
    assume "guarded_create g r = Inl AssertionFailed"
    then show ?thesis by simp
  next
    assume "\<exists>x. guarded_create g r = Inr x"
    then obtain x where "guarded_create g r = Inr x" ..
    with assms [of x] show ?thesis by simp
  qed
qed

lemma createCompositeTask_opt_root:
  assumes "0 \<le> k"
  shows "createCompositeTask_opt mk page k b d = Inl AssertionFailed
   \<or> (\<exists>t. createCompositeTask_opt mk page k b d = Inr (LoadFileTask page (Some t)))"
  unfolding createCompositeTask_opt_def Let_def
  apply (rule opt_step)
  apply (rule opt_step)
  apply (rule opt_step)
  apply (rule opt_step)
  apply (rule opt_step)
  using assms
  apply (simp add: guarded_create_def split: option.splits)
  done

lemma createCompositeTask_opt_no_root:
  "k < 0 \<Longrightarrow> createCompositeTask_opt mk page k b d = Inr (LoadFileTask page None)"
  by (simp add: createCompositeTask_opt_def guarded_create_def)

lemma process_opt_null_root_aborts:
  "process_opt factory_null_root exec clock opt_example =
     (Some AssertionFailed,
      run_start\<lparr>out := [ProcessingPages 2, ProcessingPage 1 2 ''a.tif'']\<rparr>)"
  by (simp add: process_opt_def process_page_opt_def createCompositeTask_opt_def
      guarded_create_def factory_null_root_def Filter_createTask_def opt_example_def
      run_start_def page_a_def Let_def)

lemma opt_step_failed:
  assumes "\<And>x. f x = Inl AssertionFailed"
  shows "(case guarded_create g r of Inl e \<Rightarrow> Inl e | Inr x \<Rightarrow> f x) = Inl AssertionFailed"
proof -
  from guarded_create_cases [of g r] show ?thesis
  proof
    assume "guarded_create g r = Inl AssertionFailed"
    then show ?thesis by simp
  next
    assume "\<exists>x. guarded_create g r = Inr x"
    then obtain x where "guarded_create g r = Inr x" ..
    with assms [of x] show ?thesis by simp
  qed
qed

lemma createCompositeTask_opt_null_final:
  assumes "0 \<le> k"
    and "\<forall>nxt. mk FIX_ORIENTATION (ById (page_info_id page)) nxt b (Some d) = None"
  shows "createCompositeTask_opt mk page k b d = Inl AssertionFailed"
  unfolding createCompositeTask_opt_def Let_def
  apply (rule opt_step_failed)
  apply (rule opt_step_failed)
  apply (rule opt_step_failed)
  apply (rule opt_step_failed)
  apply (rule opt_step_failed)
  using assms
  apply (simp add: guarded_create_def)
  done

lemma createCompositeTask_null_final:
  assumes "\<forall>nxt. mk FIX_ORIENTATION (ById (page_info_id page)) nxt (batch cb) None = None"
  shows "fst (createCompositeTask mk cb page k) = Inl AssertionFailed"
  unfolding createCompositeTask_def Let_def split_beta
  using assms
  by (cases "fixOrientationFilterIdx (m_ptrStages cb) \<le> k") (simp_all split del: if_split)

lemma process_page_opt_abort:
  assumes "createCompositeTask_opt mk page 5 True dbg = Inl e"
  shows "process_page_opt mk exec clock dbg total' page st =
           (Some e, st\<lparr>out := out st @
              [ProcessingPage (processed st + 1) total' (filePath (imageId (page_info_id page)))]\<rparr>)"
  using assms by (simp add: process_page_opt_def Let_def)

lemma process_pages_opt_append:
  "process_pages_opt mk exec clock dbg total' (xs @ ys) st =
     (case process_pages_opt mk exec clock dbg total' xs st of
        (Some e, st') \<Rightarrow> (Some e, st')
      | (None, st') \<Rightarrow> process_pages_opt mk exec clock dbg total' ys st')"
proof (induction xs arbitrary: st)
  case Nil
  show ?case by simp
next
  case (Cons x xs)
  obtain r st' where step: "process_page_opt mk exec clock dbg total' x st = (r, st')"
    by (cases "process_page_opt mk exec clock dbg total' x st")
  show ?case
  proof (cases r)
    case None
    with step Cons.IH [of st'] show ?thesis by simp
  next
    case (Some e)
    with step show ?thesis by simp
  qed
qed

lemma process_pages_opt_abort:
  assumes "createCompositeTask_opt mk page 5 True dbg = Inl e"
    and "process_pages_opt mk exec clock dbg total' done_pages st = (None, st')"
  shows "process_pages_opt mk exec clock dbg total' (done_pages @ page # rest) st =
           (Some e, st'\<lparr>out := out st' @
              [ProcessingPage (processed st' + 1) total' (filePath (imageId (page_info_id page)))]\<rparr>)"
  by (simp add: process_pages_opt_append assms(2) process_page_opt_abort [OF assms(1)])

lemma process_opt_abort:
  fixes co :: console_batch_opt
  assumes "m_ptrPages_opt co = Some (done_pages @ page # rest)"
    and "m_ptrStages_opt co = Some stages"
    and "createCompositeTask_opt mk page 5 True (m_debug co) = Inl e"
    and "process_pages_opt mk exec clock (m_debug co) (int (length (done_pages @ page # rest)))
           done_pages (run_start\<lparr>out := [ProcessingPages (int (length (done_pages @ page # rest)))]\<rparr>)
         = (None, st')"
  shows "process_opt mk exec clock co =
           (Some e, st'\<lparr>out := out st' @
              [ProcessingPage (processed st' + 1) (int (length (done_pages @ page # rest)))
                 (filePath (imageId (page_info_id page)))]\<rparr>)"
proof -
  have "process_pages_opt mk exec clock (m_debug co) (int (length (done_pages @ page # rest)))
           (done_pages @ page # rest)
           (run_start\<lparr>out := [ProcessingPages (int (length (done_pages @ page # rest)))]\<rparr>) =
         (Some e, st'\<lparr>out := out st' @
              [ProcessingPage (processed st' + 1) (int (length (done_pages @ page # rest)))
                 (filePath (imageId (page_info_id page)))]\<rparr>)"
    by (rule process_pages_opt_abort [OF assms(3,4)])
  then show ?thesis
    unfolding process_opt_def Let_def assms(1,2) by simp
qed

lemma process_loop_abort:
  assumes "fst (createCompositeTask mk cb page (lastFilterIdx (m_ptrStages cb))) = Inl e"
  shows "fst (process_loop mk exec v n i (page # rest) (cb, st)) = Some e
       \<and> executed (snd (snd (process_loop mk exec v n i (page # rest) (cb, st)))) = executed st"
proof -
  obtain r cb' where c: "createCompositeTask mk cb page (lastFilterIdx (m_ptrStages cb)) = (r, cb')"
    by (cases "createCompositeTask mk cb page (lastFilterIdx (m_ptrStages cb))")
  with assms have r: "r = Inl e" by simp
  show ?thesis
    by (simp add: process_page_def c r Let_def)
qed

text \<open>
  Claim C5. For every page, every last stage index \<open>k \<ge> 0\<close> and every factory, neither
  builder returns a load-file task without root: each fails its assertion or returns a
  task that wraps a fix-orientation task, and each fails whenever the factory of the
  fix-orientation stage, the final backward step, yields the null pointer. The failure is
  not a per-page error: when the build of a page fails in a run of the optimized
  \<open>process\<close>, the run ends there with the assertion failure; after the pages before it,
  the output holds only the line that announces the page, so no failure of the page is
  recorded, no summary is printed, and neither this page's task nor that of any later
  page is executed. The baseline loop ends the same way.
\<close>

theorem createCompositeTask_missing_root_is_fatal:
  fixes mk :: factory and co :: console_batch_opt and page :: page_info
    and done_pages rest :: "page_info list" and exec :: "load_file_task \<Rightarrow> outcome"
    and clock :: "nat \<Rightarrow> int" and k :: int
  assumes "0 \<le> k"
  defines "pages \<equiv> done_pages @ page # rest"
  defines "before \<equiv> process_pages_opt mk exec clock (m_debug co) (int (length pages)) done_pages
                      (run_start\<lparr>out := [ProcessingPages (int (length pages))]\<rparr>)"
  shows "(fst (createCompositeTask mk cb page k) = Inl AssertionFailed
          \<or> (\<exists>t. fst (createCompositeTask mk cb page k) = Inr (LoadFileTask page (Some t))))
       \<and> (createCompositeTask_opt mk page k b d = Inl AssertionFailed
          \<or> (\<exists>t. createCompositeTask_opt mk page k b d = Inr (LoadFileTask page (Some t))))
       \<and> ((\<forall>nxt. mk FIX_ORIENTATION (ById (page_info_id page)) nxt (batch cb) None = None) \<longrightarrow>
            fst (createCompositeTask mk cb page k) = Inl AssertionFailed)
       \<and> ((\<forall>nxt. mk FIX_ORIENTATION (ById (page_info_id page)) nxt b (Some d) = None) \<longrightarrow>
            createCompositeTask_opt mk page k b d = Inl AssertionFailed)
       \<and> (m_ptrPages_opt co = Some pages \<and> m_ptrStages_opt co = Some stages
            \<and> createCompositeTask_opt mk page 5 True (m_debug co) = Inl AssertionFailed
            \<and> fst before = None \<longrightarrow>
              process_opt mk exec clock co =
                (Some AssertionFailed, (snd before)\<lparr>out := out (snd before) @
                   [ProcessingPage (processed (snd before) + 1) (int (length pages))
                      (filePath (imageId (page_info_id page)))]\<rparr>))
       \<and> (fst (createCompositeTask mk cb page (lastFilterIdx (m_ptrStages cb))) = Inl AssertionFailed \<longrightarrow>
            fst (process_loop mk exec v n i (page # rest) (cb, st)) = Some AssertionFailed
          \<and> executed (snd (snd (process_loop mk exec v n i (page # rest) (cb, st)))) = executed st)"
proof -
  have run: "process_opt mk exec clock co =
                (Some AssertionFailed, (snd before)\<lparr>out := out (snd before) @
                   [ProcessingPage (processed (snd before) + 1) (int (length pages))
                      (filePath (imageId (page_info_id page)))]\<rparr>)"
    if h: "m_ptrPages_opt co = Some pages" "m_ptrStages_opt co = Some stages"
      "createCompositeTask_opt mk page 5 True (m_debug co) = Inl AssertionFailed"
      "fst before = None"
  proof -
    from h(4) have b: "before = (None, snd before)" by (cases before) simp
    show ?thesis
      using process_opt_abort [of co done_pages page rest stages mk AssertionFailed exec clock
          "snd before"] h(1,2,3) b
      unfolding pages_def before_def by simp
  qed
  from createCompositeTask_root [of mk cb page k]
    createCompositeTask_opt_root [OF assms(1), of mk page b d]
    createCompositeTask_null_final [of mk page cb k]
    createCompositeTask_opt_null_final [OF assms(1), of mk page b d]
    run
    process_loop_abort [of mk cb page AssertionFailed exec v n i rest st]
  show ?thesis by blast
qed

theorem createCompositeTask_missing_root_is_fatal_witness:
  "fst (createCompositeTask factory_null_root batch_example page_a 5) = Inl AssertionFailed
   \<and> createCompositeTask_opt factory_null_root page_a 5 True False = Inl AssertionFailed
   \<and> process_opt factory_null_root exec_b_fails clock_example opt_example =
       (Some AssertionFailed,
        run_start\<lparr>out := [ProcessingPages 2, ProcessingPage 1 2 ''a.tif'']\<rparr>)"
proof -
  have null: "\<forall>nxt b d. factory_null_root FIX_ORIENTATION (ById (page_info_id page_a)) nxt b d = None"
    by (simp add: factory_null_root_def)
  have co: "m_ptrPages_opt opt_example = Some ([] @ page_a # [page_b])"
     "m_ptrStages_opt opt_example = Some StageSequence_fixed" "m_debug opt_example = False"
    by (simp_all add: opt_example_def)
  note inst = createCompositeTask_missing_root_is_fatal
    [where k = 5 and mk = factory_null_root and cb = batch_example and page = page_a
       and b = True and d = False and co = opt_example and done_pages = "[]"
       and rest = "[page_b]" and stages = StageSequence_fixed and exec = exec_b_fails
       and clock = clock_example]
  from inst null have base: "fst (createCompositeTask factory_null_root batch_example page_a 5) =
      Inl AssertionFailed"
    by simp
  from inst null have opt: "createCompositeTask_opt factory_null_root page_a 5 True False =
      Inl AssertionFailed"
    by simp
  from inst opt co have "process_opt factory_null_root exec_b_fails clock_example opt_example =
       (Some AssertionFailed,
        run_start\<lparr>out := [ProcessingPages 2, ProcessingPage 1 2 ''a.tif'']\<rparr>)"
    by (simp add: run_start_def page_a_def)
  with base opt show ?thesis by simp
qed

section \<open>Construction from a project file: properties\<close>

lemma ConsoleBatch_fails_iff:
  "(\<exists>msg. ConsoleBatch pf = Inl (RuntimeError msg)) =
     (\<not> file_open pf \<or> \<not> doc_setContent pf \<or> reader_outputDirectory pf = [])"
  by (simp add: ConsoleBatch_def split: option.splits)

lemma ConsoleBatch_constructed:
  "ConsoleBatch pf = Inr cb \<Longrightarrow>
     batch cb \<and> m_ptrStages cb = StageSequence_fixed \<and> m_ptrPages cb = reader_pages pf
     \<and> m_ptrPages cb \<noteq> None \<and> reader_outputDirectory pf \<noteq> []"
  by (auto simp: ConsoleBatch_def split: if_splits option.splits)

lemma ConsoleBatch_project_example: "ConsoleBatch project_example = Inr batch_example"
  by (simp add: ConsoleBatch_def project_example_def batch_example_def)

lemma ConsoleBatch_opt_fails_iff:
  "(\<exists>e. ConsoleBatch_opt dbg pf = Inl e) =
     (\<not> file_open pf \<or> \<not> doc_setContent pf \<or> reader_pages pf = None)"
  by (simp add: ConsoleBatch_opt_def)

text \<open>
  Claim C6. The baseline constructor throws a configuration error exactly when the
  file does not open, its content does not parse or the output directory is empty (lemma
  \<open>ConsoleBatch_fails_iff\<close>), and then no object exists that could process a page. The
  optimized constructor checks the file, the content and the pages, but not the output
  directory: from a project file without output directory, which the baseline refuses
  with "Output directory is not set.", it builds an object, and \<open>process\<close> on that object
  executes the tasks of the pages.
\<close>

theorem ConsoleBatch_opt_accepts_missing_output_directory:
  "ConsoleBatch project_no_outdir = Inl (RuntimeError ''Output directory is not set.'')
   \<and> ConsoleBatch_opt False project_no_outdir = Inr (opt_example\<lparr>m_outFileNameGen := []\<rparr>)
   \<and> executed (snd (process_opt Filter_createTask exec clock
        (opt_example\<lparr>m_outFileNameGen := []\<rparr>))) =
      [page_task_opt False page_a, page_task_opt False page_b]"
proof -
  have "executed (snd (process_opt Filter_createTask exec clock
        (opt_example\<lparr>m_outFileNameGen := []\<rparr>))) =
      [page_task_opt False page_a, page_task_opt False page_b]"
    using process_opt_run [where cb = "opt_example\<lparr>m_outFileNameGen := []\<rparr>"
        and pages = "[page_a, page_b]" and stages = StageSequence_fixed and exec = exec
        and clock = clock]
    by (auto simp: opt_example_def)
  then show ?thesis
    by (simp add: ConsoleBatch_def ConsoleBatch_opt_def project_no_outdir_def opt_example_def)
qed

section \<open>The two builders side by side\<close>

lemma stages_upto_ge5: "5 \<le> k \<Longrightarrow> stages_upto k = all_stages"
  by (simp add: stages_upto_def all_stages_def)







section \<open>The baseline loop and the order of execution\<close>

lemma page_task_batch: "batch cb \<Longrightarrow> batch cb' \<Longrightarrow> page_task cb' page = page_task cb page"
  by (simp add: page_task_def builder_defs eval_nat_numeral)

lemma createCompositeTask_final:
  assumes "batch cb" and "m_ptrStages cb = StageSequence_fixed"
  shows "createCompositeTask Filter_createTask cb page (lastFilterIdx (m_ptrStages cb)) =
           (Inr (page_task cb page), cb\<lparr>debug := False\<rparr>)"
  using assms
  by (simp add: createCompositeTask_def lastFilterIdx_def builder_defs page_task_def
      eval_nat_numeral)

lemma first_failure_None:
  "(first_failure run ps = None) = (\<forall>p\<in>set ps. \<not> throws (run p))"
  by (induction ps) (auto simp: throws_def split: outcome.splits)

lemma attempted_prefix: "prefix (attempted run ps) ps"
  by (induction ps) simp_all

lemma attempted_all: "(\<forall>p\<in>set ps. \<not> throws (run p)) \<Longrightarrow> attempted run ps = ps"
  by (induction ps) simp_all

lemma process_page_eq:
  assumes "batch cb" and "m_ptrStages cb = StageSequence_fixed"
  shows "process_page Filter_createTask exec v n i page (cb, st) =
           (case exec (page_task cb page) of Thrown w \<Rightarrow> Some (Exception w) | _ \<Rightarrow> None,
            cb\<lparr>debug := False\<rparr>,
            (if v then st\<lparr>out := out st @
                   [VerboseProcessing (i + 1) n (filePath (imageId (page_info_id page)))]\<rparr>
             else st)\<lparr>executed := executed st @ [page_task cb page]\<rparr>)"
  by (cases "exec (page_task cb page)")
     (simp_all add: process_page_def createCompositeTask_final [OF assms] Let_def)

lemma process_loop_executed:
  assumes "batch cb" and "m_ptrStages cb = StageSequence_fixed"
  shows "executed (snd (snd (process_loop Filter_createTask exec v n i pages (cb, st)))) =
           executed st @ map (page_task cb) (attempted (\<lambda>p. exec (page_task cb p)) pages)
       \<and> fst (process_loop Filter_createTask exec v n i pages (cb, st)) =
           first_failure (\<lambda>p. exec (page_task cb p)) pages"
  using assms
proof (induction pages arbitrary: cb st i)
  case Nil
  show ?case by simp
next
  case (Cons page pages)
  let ?cb = "cb\<lparr>debug := False\<rparr>"
  let ?st = "(if v then st\<lparr>out := out st @
                   [VerboseProcessing (i + 1) n (filePath (imageId (page_info_id page)))]\<rparr>
             else st)\<lparr>executed := executed st @ [page_task cb page]\<rparr>"
  have inv: "batch ?cb" "m_ptrStages ?cb = StageSequence_fixed"
    using Cons.prems by simp_all
  have same: "page_task ?cb p = page_task cb p" for p
    by (rule page_task_batch [OF Cons.prems(1) inv(1)])
  have ex: "executed ?st = executed st @ [page_task cb page]"
    by simp
  note step = process_page_eq [OF Cons.prems, of exec v n i page st]
  show ?case
  proof (cases "throws (exec (page_task cb page))")
    case True
    then obtain w where w: "exec (page_task cb page) = Thrown w"
      by (cases "exec (page_task cb page)") (simp_all add: throws_def)
    have "process_loop Filter_createTask exec v n i (page # pages) (cb, st) =
            (Some (Exception w), ?cb, ?st)"
      by (simp only: process_loop.simps step w outcome.case prod.case option.case)
    with True ex w show ?thesis by simp
  next
    case False
    then have none: "(case exec (page_task cb page) of Thrown w \<Rightarrow> Some (Exception w)
        | _ \<Rightarrow> None) = None"
      by (cases "exec (page_task cb page)") (simp_all add: throws_def)
    have loop: "process_loop Filter_createTask exec v n i (page # pages) (cb, st) =
            process_loop Filter_createTask exec v n (Suc i) pages (?cb, ?st)"
      by (simp only: process_loop.simps step none prod.case option.case)
    from Cons.IH [OF inv, of "Suc i" ?st]
    have ih: "executed (snd (snd (process_loop Filter_createTask exec v n (Suc i) pages (?cb, ?st)))) =
           executed ?st @ map (page_task cb) (attempted (\<lambda>p. exec (page_task cb p)) pages)"
        "fst (process_loop Filter_createTask exec v n (Suc i) pages (?cb, ?st)) =
           first_failure (\<lambda>p. exec (page_task cb p)) pages"
      by (simp_all only: same)
    have ff: "first_failure (\<lambda>p. exec (page_task cb p)) (page # pages) =
        first_failure (\<lambda>p. exec (page_task cb p)) pages"
      using False by (cases "exec (page_task cb page)") (simp_all add: throws_def)
    show ?thesis
      unfolding loop ih ex ff using False by simp
  qed
qed

lemma process_executed:
  assumes "m_ptrPages cb = Some pages" and "m_ptrStages cb = StageSequence_fixed" and "batch cb"
  shows "executed (snd (snd (process Filter_createTask exec v cb))) =
           map (page_task cb) (attempted (\<lambda>p. exec (page_task cb p)) pages)
       \<and> fst (process Filter_createTask exec v cb) =
           first_failure (\<lambda>p. exec (page_task cb p)) pages"
proof -
  obtain r cb' st where loop:
    "process_loop Filter_createTask exec v (length pages) 0 pages (cb, run_start) = (r, cb', st)"
    by (cases "process_loop Filter_createTask exec v (length pages) 0 pages (cb, run_start)") auto
  from process_loop_executed [OF assms(3,2), of exec v "length pages" 0 pages run_start] loop
  have "executed st = map (page_task cb) (attempted (\<lambda>p. exec (page_task cb p)) pages)"
    and "r = first_failure (\<lambda>p. exec (page_task cb p)) pages"
    by (simp_all add: run_start_def)
  with assms(1) loop show ?thesis
    by (cases "first_failure (\<lambda>p. exec (page_task cb p)) pages")
       (simp_all add: process_def)
qed

text \<open>
  Claim C3. The optimized loop catches whatever the task of a page throws and goes on:
  it executes the task of every page (lemma \<open>process_opt_executed\<close>) and counts the
  pages whose task did not report success. The baseline loop has no handler: in a catalog of two pages
  whose first task throws, the exception leaves \<open>process\<close>, and only the task of the
  first page has been executed, so the second page is never attempted; on the same input
  the optimized loop executes the tasks of both pages. An error result returned by a
  task is dropped by the baseline: the run returns normally.
\<close>

theorem process_exception_ends_batch:
  "fst (process Filter_createTask exec_a_throws False batch_example) =
     Some (Exception ''bad_alloc'')
   \<and> executed (snd (snd (process Filter_createTask exec_a_throws False batch_example))) =
     [page_task batch_example page_a]
   \<and> fst (process Filter_createTask exec_b_fails False batch_example) = None
   \<and> executed (snd (process_opt Filter_createTask exec_a_throws clock_example opt_example)) =
       [page_task_opt False page_a, page_task_opt False page_b]"
proof -
  have b: "m_ptrPages batch_example = Some [page_a, page_b]"
    "m_ptrStages batch_example = StageSequence_fixed" "batch batch_example"
    by (simp_all add: batch_example_def)
  have ne: "page_b \<noteq> page_a" by (simp add: page_a_def page_b_def)
  have a_a: "exec_a_throws (page_task cb page_a) = Thrown ''bad_alloc''" for cb
    by (simp add: exec_a_throws_def page_task_def)
  have b_a: "exec_b_fails (page_task cb page_a) = ResultOk" for cb
    using ne by (simp add: exec_b_fails_def page_task_def)
  have b_b: "exec_b_fails (page_task cb page_b) = ResultError ''unreadable image''" for cb
    by (simp add: exec_b_fails_def page_task_def)
  have 1: "fst (process Filter_createTask exec_a_throws False batch_example) =
     Some (Exception ''bad_alloc'')"
    "executed (snd (snd (process Filter_createTask exec_a_throws False batch_example))) =
     [page_task batch_example page_a]"
    using process_executed [OF b, of exec_a_throws False]
    by (simp_all add: a_a throws_def)
  have 2: "fst (process Filter_createTask exec_b_fails False batch_example) = None"
    using process_executed [OF b, of exec_b_fails False]
    by (simp add: b_a b_b)
  have 3: "executed (snd (process_opt Filter_createTask exec_a_throws clock_example opt_example)) =
       [page_task_opt False page_a, page_task_opt False page_b]"
    using process_opt_run [where cb = opt_example and pages = "[page_a, page_b]"
        and stages = StageSequence_fixed and exec = exec_a_throws and clock = clock_example]
    by (auto simp: opt_example_def)
  from 1 2 3 show ?thesis by simp
qed

lemma run_page_task_opt:
  "prefix (fst (run_composite compute (page_task_opt dbg p) x)) all_stages \<and>
   ((\<forall>s a y. compute s a y = Inr (f s y)) \<longrightarrow>
      run_composite compute (page_task_opt dbg p) x = (all_stages, Final (fold f all_stages x)))"
proof -
  obtain t where t: "build_spec (create_opt p True dbg) 5 = Some t"
      "map task_stage (chain t) = all_stages"
    using chain_create_opt [of 5 p True dbg] by (auto simp: stages_upto_ge5)
  show ?thesis
    unfolding page_task_opt_def by (rule run_composite_chain [OF t])
qed

lemma run_page_task:
  "prefix (fst (run_composite compute (page_task cb p) x)) all_stages \<and>
   ((\<forall>s a y. compute s a y = Inr (f s y)) \<longrightarrow>
      run_composite compute (page_task cb p) x = (all_stages, Final (fold f all_stages x)))"
proof -
  obtain t where t: "build_spec (create_base cb p 5) 5 = Some t"
      "map task_stage (chain t) = all_stages"
    using chain_create_base [of 5 cb p] by (auto simp: stages_upto_ge5)
  show ?thesis
    unfolding page_task_def by (rule run_composite_chain [OF t])
qed

text \<open>
  Claim C7. The optimized \<open>process\<close> executes one composite task for each page of the
  snapshot, in the order of the snapshot (lemma \<open>process_opt_executed\<close>), and within a
  composite task the stages run in pipeline order (lemmas \<open>run_page_task_opt\<close> and
  \<open>run_page_task\<close>, on the execution modelled from the spec). The baseline \<open>process\<close>
  executes the tasks of the pages in order up to the first one that throws (lemma
  \<open>process_executed\<close>): in a catalog of two pages whose first task throws, the task of
  the second page is never executed, so not every page is processed once, while the
  optimized loop executes both.
\<close>

theorem process_skips_pages_after_exception:
  "executed (snd (snd (process Filter_createTask exec_a_throws True batch_example))) \<noteq>
     map (page_task batch_example) [page_a, page_b]
   \<and> page_task batch_example page_b \<notin>
       set (executed (snd (snd (process Filter_createTask exec_a_throws True batch_example))))
   \<and> executed (snd (process_opt Filter_createTask exec_a_throws clock_example opt_example)) =
       map (page_task_opt False) [page_a, page_b]"
proof -
  have b: "m_ptrPages batch_example = Some [page_a, page_b]"
    "m_ptrStages batch_example = StageSequence_fixed" "batch batch_example"
    by (simp_all add: batch_example_def)
  have ne: "page_b \<noteq> page_a" by (simp add: page_a_def page_b_def)
  have a_a: "exec_a_throws (page_task cb page_a) = Thrown ''bad_alloc''" for cb
    by (simp add: exec_a_throws_def page_task_def)
  have ex: "executed (snd (snd (process Filter_createTask exec_a_throws True batch_example))) =
     [page_task batch_example page_a]"
    using process_executed [OF b, of exec_a_throws True]
    by (simp add: a_a throws_def)
  have d: "page_task batch_example page_b \<noteq> page_task batch_example page_a"
    using ne by (simp add: page_task_def)
  have o: "executed (snd (process_opt Filter_createTask exec_a_throws clock_example opt_example)) =
       map (page_task_opt False) [page_a, page_b]"
    using process_opt_executed [of opt_example "[page_a, page_b]" StageSequence_fixed
        exec_a_throws clock_example]
    by (simp add: opt_example_def)
  from ex d o show ?thesis by simp
qed

end
